theory Spec2Isabelle
  imports Main "HOL-Library.Sublist"
begin

section \<open>Python text\<close>

text \<open>
  A Python \<open>str\<close> is a sequence of Unicode code points; it is modelled as a list of
  natural numbers, one per code point.  Literals of the source are written as Isabelle
  strings and converted code point by code point with \<open>lit\<close>.
\<close>

type_synonym str = "nat list"

definition lit :: "string \<Rightarrow> str" where
  "lit cs = map of_char cs"

text \<open>\<open>str.startswith\<close>.\<close>

definition startswith :: "str \<Rightarrow> str \<Rightarrow> bool" where
  "startswith s p = (take (length p) s = p)"

text \<open>\<open>str.endswith\<close>.\<close>

definition endswith :: "str \<Rightarrow> str \<Rightarrow> bool" where
  "endswith s p = (length p \<le> length s \<and> drop (length s - length p) s = p)"

section \<open>Synthetic filenames (\<open>compiler.py\<close>, lines 49--60)\<close>

text \<open>
  \<open>os.path.join\<close> with two arguments, as \<open>posixpath.join\<close> computes it: a second
  component that starts with the separator replaces the first; otherwise the separator
  is inserted unless the first component is empty or already ends with it.
\<close>

definition path_join :: "str \<Rightarrow> str \<Rightarrow> str" where
  "path_join a b =
     (if startswith b (lit ''/'') then b
      else if a = [] \<or> endswith a (lit ''/'') then a @ b
      else a @ lit ''/'' @ b)"

text \<open>
  \<open>get_filename\<close>.  The directory returned by \<open>get_tmpdir()\<close> is defined outside the
  two source files and is a parameter.
\<close>

definition get_filename :: "str \<Rightarrow> str \<Rightarrow> str \<Rightarrow> str" where
  "get_filename tmpdir cell_id sfx =
     (let basename = lit ''__marimo__cell_'' @ cell_id @ lit ''_''
      in path_join tmpdir (basename @ sfx @ lit ''.py''))"

text \<open>
  The tail \<open>(.*?)_\<close> of the pattern, tried at the start of a text: the non-greedy group
  takes the shortest run of characters other than a line feed (the only character
  \<open>.\<close> refuses without \<open>re.DOTALL\<close>) that is followed by an underscore.
\<close>

fun lazy_group :: "str \<Rightarrow> str option" where
  "lazy_group [] = None"
| "lazy_group (c # cs) =
     (if c = 95 then Some []
      else if c = 10 then None
      else map_option (Cons c) (lazy_group cs))"

text \<open>The whole pattern \<open>__marimo__cell_(.*?)_\<close> tried at the start of a text.\<close>

definition match_here :: "str \<Rightarrow> str option" where
  "match_here s =
     (if startswith s (lit ''__marimo__cell_'')
      then lazy_group (drop (length (lit ''__marimo__cell_'')) s)
      else None)"

text \<open>
  The first element of \<open>re.findall(r"__marimo__cell_(.*?)_", filename)\<close>: the group of
  the leftmost match, \<open>None\<close> when the list of matches is empty.
\<close>

fun first_match :: "str \<Rightarrow> str option" where
  "first_match [] = None"
| "first_match (c # cs) =
     (case match_here (c # cs) of
        Some g \<Rightarrow> Some g
      | None \<Rightarrow> first_match cs)"

definition cell_id_from_filename :: "str \<Rightarrow> str option" where
  "cell_id_from_filename filename = first_match filename"

section \<open>Text helpers of the compiler\<close>

text \<open>Line 161: every non-breaking space (code point 160) becomes a space.\<close>

definition replace_nbsp :: "str \<Rightarrow> str" where
  "replace_nbsp s = map (\<lambda>c. if c = 160 then 32 else c) s"

text \<open>The characters \<open>str.strip()\<close> removes (those for which \<open>str.isspace\<close> holds).\<close>

definition isspace :: "nat \<Rightarrow> bool" where
  "isspace c =
     ((9 \<le> c \<and> c \<le> 13) \<or> (28 \<le> c \<and> c \<le> 32) \<or> c = 133 \<or> c = 160 \<or> c = 5760 \<or>
      (8192 \<le> c \<and> c \<le> 8202) \<or> c = 8232 \<or> c = 8233 \<or> c = 8239 \<or> c = 8287 \<or>
      c = 12288)"

definition strip :: "str \<Rightarrow> str" where
  "strip s = rev (dropWhile isspace (rev (dropWhile isspace s)))"

text \<open>The line boundaries of \<open>str.splitlines()\<close>.\<close>

definition is_linebreak :: "nat \<Rightarrow> bool" where
  "is_linebreak c =
     ((10 \<le> c \<and> c \<le> 13) \<or> (28 \<le> c \<and> c \<le> 30) \<or> c = 133 \<or> c = 8232 \<or> c = 8233)"

text \<open>
  \<open>str.splitlines()\<close>, reading left to right with the line collected so far: a line
  ends at a boundary (a carriage return directly followed by a line feed counts once),
  and text after the last boundary is a line of its own when it is not empty.
\<close>

fun splitlines_from :: "str \<Rightarrow> str \<Rightarrow> str list" where
  "splitlines_from cur [] = (if cur = [] then [] else [cur])"
| "splitlines_from cur (c # cs) =
     (if is_linebreak c
      then cur # splitlines_from [] (if c = 13 \<and> take 1 cs = [10] then drop 1 cs else cs)
      else splitlines_from (cur @ [c]) cs)"

definition splitlines :: "str \<Rightarrow> str list" where
  "splitlines s = splitlines_from [] s"

section \<open>Tokens and \<open>ends_with_semicolon\<close> (lines 63--85)\<close>

datatype token_type =
  ENDMARKER | NAME | NUMBER | STRING | NEWLINE | INDENT | DEDENT | OP | COMMENT | NL
  | ENCODING | OTHER_TOKEN nat

record token =
  tok_type :: token_type
  tok_string :: str

text \<open>The token types the loop skips.\<close>

definition skipped :: "token_type \<Rightarrow> bool" where
  "skipped ty = (ty \<in> {ENDMARKER, NEWLINE, NL, COMMENT, INDENT, DEDENT, ENCODING})"

text \<open>The loop over the reversed token list.\<close>

fun scan_tokens :: "token list \<Rightarrow> bool" where
  "scan_tokens [] = False"
| "scan_tokens (t # ts) =
     (if skipped (tok_type t) then scan_tokens ts else tok_string t = lit '';'')"

text \<open>
  \<open>ends_with_semicolon\<close>.  The standard tokenizer, applied to the UTF-8 bytes of the
  stripped text, is a parameter: \<open>tokenize s\<close> is the list of tokens it yields for the
  text \<open>s\<close>.
\<close>

definition ends_with_semicolon :: "(str \<Rightarrow> token list) \<Rightarrow> str \<Rightarrow> bool" where
  "ends_with_semicolon tokenize src = scan_tokens (rev (tokenize (strip src)))"


section \<open>Syntax trees\<close>

text \<open>
  A position attribute of a node is absent on the instance, or holds \<open>None\<close>, or holds an
  integer.
\<close>

datatype attr = Absent | PyNone | PyInt int

datatype const_value = NoneValue | OtherValue str

text \<open>
  The node classes the compiler tests for; every other class is \<open>OtherNode\<close> with its
  name.  Definitions carry their \<open>name\<close> field, a constant its value.
\<close>

datatype node_class =
  Module | Expression | TypeIgnore | Return
  | FunctionDef str | AsyncFunctionDef str | ClassDef str
  | Import | ImportFrom | Expr | Constant const_value | OtherNode str

text \<open>
  What the compiler reads of a node: its class, the \<open>_attributes\<close> tuple of that class,
  and the four position attributes of the instance.
\<close>

record node_info =
  cls :: node_class
  attributes :: "str list"
  lineno :: attr
  col_offset :: attr
  end_lineno :: attr
  end_col_offset :: attr

text \<open>
  A node with its child nodes in field order.  The children of a \<open>Module\<close> are the
  statements of its \<open>body\<close> (no type comments are requested from the parser, so
  \<open>type_ignores\<close> is empty); the only child of an \<open>Expr\<close> or \<open>Expression\<close> is its value.
\<close>

datatype ast = Node node_info "ast list"

fun info :: "ast \<Rightarrow> node_info" where
  "info (Node i cs) = i"

fun children :: "ast \<Rightarrow> ast list" where
  "children (Node i cs) = cs"

text \<open>The \<open>_attributes\<close> of the classes that carry a source position.\<close>

definition located :: "str list" where
  "located = [lit ''lineno'', lit ''col_offset'', lit ''end_lineno'', lit ''end_col_offset'']"

datatype exn =
  SyntaxError | TypeError | AttributeError | IndexError | AssertionError
  | HTTPException str | OtherError str

section \<open>\<open>contains_only_tests\<close> (lines 88--100)\<close>

text \<open>The loop of \<open>contains_only_tests\<close> over the statements, with \<open>scope\<close> kept for the
  final \<open>bool(scope)\<close>.  \<open>str.lower\<close> is a parameter.\<close>

fun tests_loop :: "(str \<Rightarrow> str) \<Rightarrow> ast list \<Rightarrow> ast list \<Rightarrow> bool" where
  "tests_loop lower scope [] = (scope \<noteq> [])"
| "tests_loop lower scope (node # rest) =
     (case cls (info node) of
        Return \<Rightarrow> True
      | FunctionDef name \<Rightarrow>
          (if \<not> startswith (lower name) (lit ''test'') then False
           else tests_loop lower scope rest)
      | AsyncFunctionDef name \<Rightarrow>
          (if \<not> startswith (lower name) (lit ''test'') then False
           else tests_loop lower scope rest)
      | ClassDef name \<Rightarrow>
          (if \<not> startswith (lower name) (lit ''test'') then False
           else tests_loop lower scope rest)
      | _ \<Rightarrow> False)"

definition contains_only_tests :: "(str \<Rightarrow> str) \<Rightarrow> ast \<Rightarrow> bool" where
  "contains_only_tests lower tree = (let scope = children tree in tests_loop lower scope scope)"

text \<open>The test of line 189 on one statement.\<close>

definition is_import :: "ast \<Rightarrow> bool" where
  "is_import stmt = (cls (info stmt) = Import \<or> cls (info stmt) = ImportFrom)"

text \<open>
  The spec's wording of the two kinds of statement: a function or class definition
  whose name, lower-cased, starts with \<open>test\<close>; a return statement.
\<close>

definition is_test_def :: "(str \<Rightarrow> str) \<Rightarrow> ast \<Rightarrow> bool" where
  "is_test_def lower stmt =
     (case cls (info stmt) of
        FunctionDef name \<Rightarrow> startswith (lower name) (lit ''test'')
      | AsyncFunctionDef name \<Rightarrow> startswith (lower name) (lit ''test'')
      | ClassDef name \<Rightarrow> startswith (lower name) (lit ''test'')
      | _ \<Rightarrow> False)"

definition is_return :: "ast \<Rightarrow> bool" where
  "is_return stmt = (cls (info stmt) = Return)"

text \<open>Lower-casing of the ASCII letters, as \<open>str.lower\<close> does on ASCII text.\<close>

definition ascii_lower :: "str \<Rightarrow> str" where
  "ascii_lower s = map (\<lambda>c. if 65 \<le> c \<and> c \<le> 90 then c + 32 else c) s"

section \<open>\<open>fix_source_position\<close> (lines 113--146)\<close>

text \<open>The anchor: a file name and the two offsets.\<close>

record source_position =
  sp_filename :: str
  sp_lineno :: int
  sp_col_offset :: int

text \<open>
  \<open>getattr(child, a, 0) + offset\<close> for \<open>lineno\<close> and \<open>col_offset\<close>: an absent attribute
  reads as \<open>0\<close>, and \<open>None\<close> cannot be added to.
\<close>

definition shift_default :: "attr \<Rightarrow> int \<Rightarrow> exn + attr" where
  "shift_default a off =
     (case a of
        Absent \<Rightarrow> Inr (PyInt (0 + off))
      | PyNone \<Rightarrow> Inl TypeError
      | PyInt n \<Rightarrow> Inr (PyInt (n + off)))"

text \<open>
  The guarded update of \<open>end_lineno\<close> and \<open>end_col_offset\<close>.  These two attributes are
  optional in the grammar, and a class that lists one in \<open>_attributes\<close> gives it the
  default \<open>None\<close>: read where it is absent it is \<open>None\<close>, and the node is left as it is.
\<close>

definition shift_optional :: "attr \<Rightarrow> int \<Rightarrow> attr" where
  "shift_optional a off =
     (case a of
        Absent \<Rightarrow> Absent
      | PyNone \<Rightarrow> PyNone
      | PyInt n \<Rightarrow> PyInt (n + off))"

text \<open>The body of the loop, on one node.\<close>

definition fix_node :: "source_position \<Rightarrow> node_info \<Rightarrow> exn + node_info" where
  "fix_node sp child =
     (let line_offset = sp_lineno sp; col = sp_col_offset sp in
      if cls child = TypeIgnore then
        (case shift_default (lineno child) line_offset of
           Inl e \<Rightarrow> Inl e
         | Inr l \<Rightarrow> Inr (child\<lparr>lineno := l\<rparr>))
      else
        (case (if lit ''lineno'' \<in> set (attributes child)
               then shift_default (lineno child) line_offset else Inr (lineno child)) of
           Inl e \<Rightarrow> Inl e
         | Inr l \<Rightarrow>
        (case (if lit ''col_offset'' \<in> set (attributes child)
               then shift_default (col_offset child) col else Inr (col_offset child)) of
           Inl e \<Rightarrow> Inl e
         | Inr c \<Rightarrow>
             Inr (child\<lparr>lineno := l, col_offset := c,
                end_lineno :=
                  (if lit ''end_lineno'' \<in> set (attributes child)
                   then shift_optional (end_lineno child) line_offset else end_lineno child),
                end_col_offset :=
                  (if lit ''end_col_offset'' \<in> set (attributes child)
                   then shift_optional (end_col_offset child) col
                   else end_col_offset child)\<rparr>))))"

text \<open>
  Results of a list of steps, stopping at the first exception.
\<close>

fun collect :: "(exn + 'a) list \<Rightarrow> exn + 'a list" where
  "collect [] = Inr []"
| "collect (r # rs) =
     (case r of
        Inl e \<Rightarrow> Inl e
      | Inr x \<Rightarrow> (case collect rs of Inl e \<Rightarrow> Inl e | Inr xs \<Rightarrow> Inr (x # xs)))"

text \<open>
  \<open>fix_source_position\<close>: \<open>ast.walk\<close> yields the node and every descendant once, and the
  loop body updates the node it is given, so the tree keeps its shape and every node is
  replaced by its update.  An exception of the loop body ends the call.
\<close>

fun fix_source_position :: "source_position \<Rightarrow> ast \<Rightarrow> exn + ast" where
  "fix_source_position sp (Node i cs) =
     (case fix_node sp i of
        Inl e \<Rightarrow> Inl e
      | Inr i' \<Rightarrow>
          (case collect (map (fix_source_position sp) cs) of
             Inl e \<Rightarrow> Inl e
           | Inr cs' \<Rightarrow> Inr (Node i' cs')))"

text \<open>The node reached from the root by a path of child indices.\<close>

fun node_at :: "ast \<Rightarrow> nat list \<Rightarrow> node_info option" where
  "node_at (Node i cs) [] = Some i"
| "node_at (Node i cs) (k # p) = (if k < length cs then node_at (cs ! k) p else None)"

text \<open>
  A tree as the parser builds it: \<open>lineno\<close> and \<open>col_offset\<close> are required integers of
  the grammar, so they hold an integer on every node whose class lists them, and
  \<open>lineno\<close> does on a type-ignore comment.  The two end attributes are optional.
\<close>

definition is_int :: "attr \<Rightarrow> bool" where
  "is_int a = (case a of PyInt n \<Rightarrow> True | _ \<Rightarrow> False)"

definition node_ok :: "node_info \<Rightarrow> bool" where
  "node_ok i =
     ((cls i = TypeIgnore \<or> lit ''lineno'' \<in> set (attributes i) \<longrightarrow> is_int (lineno i)) \<and>
      (cls i \<noteq> TypeIgnore \<and> lit ''col_offset'' \<in> set (attributes i) \<longrightarrow> is_int (col_offset i)))"

fun tree_ok :: "ast \<Rightarrow> bool" where
  "tree_ok (Node i cs) = (node_ok i \<and> list_all tree_ok cs)"

text \<open>
  The spec's wording of one attribute's move: an integer is shifted by the offset; an
  attribute that is absent or \<open>None\<close> is left as it is.
\<close>

definition moved :: "attr \<Rightarrow> int \<Rightarrow> attr \<Rightarrow> bool" where
  "moved a off a' = (case a of PyInt n \<Rightarrow> a' = PyInt (n + off) | _ \<Rightarrow> a' = a)"

text \<open>The same function applied to the information of every node of a tree.\<close>

fun map_ast :: "(node_info \<Rightarrow> node_info) \<Rightarrow> ast \<Rightarrow> ast" where
  "map_ast f (Node i cs) = Node (f i) (map (map_ast f) cs)"

text \<open>The update of one node, where it does not raise.\<close>

definition fixed_node :: "source_position \<Rightarrow> node_info \<Rightarrow> node_info" where
  "fixed_node sp i = (case fix_node sp i of Inr i' \<Rightarrow> i' | Inl e \<Rightarrow> i)"

section \<open>\<open>compile_cell\<close> (lines 149--292)\<close>

subsection \<open>Records of the compiler\<close>

text \<open>
  Modelled from the spec: \<open>ImportData\<close> is declared in the visitor module, which is not
  among the source files.  The spec calls it the import descriptor, "module + imported
  symbol + alias", compared by structural equality; the compiler reads its field
  \<open>definition\<close>, the name the import binds.
\<close>

record import_data =
  im_module :: str
  im_imported_symbol :: "str option"
  im_definition :: str

text \<open>
  Modelled from the spec: \<open>VariableData\<close>, the "metadata about how it was defined
  (function/class/import/assignment)" kept for each name; the compiler reads its field
  \<open>import_data\<close>.
\<close>

record variable_datum =
  vd_kind :: str
  import_data :: "import_data option"

text \<open>What the compiler reads of the \<open>ScopedVisitor\<close> after the visit.\<close>

record visitor =
  v_defs :: "str set"
  v_refs :: "str set"
  v_variable_data :: "str \<rightharpoonup> variable_datum list"
  v_deleted_refs :: "str set"
  v_language :: str

record ImportWorkspace =
  is_import_block :: bool
  imported_defs :: "str set"

text \<open>
  \<open>CellImpl\<close>, with the fields \<open>compile_cell\<close> passes.  The two fields that the early
  return of line 172 does not pass (\<open>import_workspace\<close>, \<open>_test\<close>) are \<open>None\<close> there: they
  keep the defaults of the class, which is declared outside the source files.  The type
  \<open>'c\<close> is the type of code objects.
\<close>

record 'c CellImpl =
  key :: int
  code :: str
  cell_mod :: ast
  defs :: "str set"
  refs :: "str set"
  temporaries :: "str set"
  variable_data :: "str \<rightharpoonup> variable_datum list"
  import_workspace :: "ImportWorkspace option"
  deleted_refs :: "str set"
  language :: str
  body :: "'c option"
  last_expr :: "'c option"
  cell_id :: str
  test :: "bool option"

text \<open>
  What the assertion-rewriting step can do.  \<open>rewrite_asserts\<close> works on the module in
  place and returns nothing: the import of the facility fails, or the call raises and
  leaves the module in some state, or it returns with the module rewritten.
\<close>

datatype rewrite_outcome = ImportFailed | Raised ast | Rewritten ast

text \<open>
  The facilities \<open>compile_cell\<close> calls that are not defined in the source files:
  the built-in \<open>hash\<close>; the built-in \<open>compile\<close> in its three uses (to a tree, of the
  module, of the expression); the tokenizer; \<open>str.lower\<close>; the construction and visit
  of a \<open>ScopedVisitor\<close>, given the prefix and the module, which may raise and works on the
  module in place; \<open>is_local\<close>; the assertion rewriter; and the temporary directory.
\<close>

record 'c env =
  hash_of :: "str \<Rightarrow> int"
  parse_module :: "str \<Rightarrow> exn + ast"
  tokens_of :: "str \<Rightarrow> token list"
  lower_of :: "str \<Rightarrow> str"
  scoped_visit :: "str \<Rightarrow> ast \<Rightarrow> exn + visitor \<times> ast"
  is_local :: "str \<Rightarrow> bool"
  rewrite_asserts :: "ast \<Rightarrow> str \<Rightarrow> str \<Rightarrow> rewrite_outcome"
  compile_exec :: "ast \<Rightarrow> str \<Rightarrow> exn + 'c"
  compile_eval :: "ast \<Rightarrow> str \<Rightarrow> exn + 'c"
  tmpdir :: str

text \<open>
  The two process-wide stores the compiler writes: Python's \<open>linecache.cache\<close> and the
  log of warnings.
\<close>

record world =
  linecache :: "str \<rightharpoonup> nat \<times> unit option \<times> str list \<times> str"
  warnings :: "str list"

subsection \<open>The steps\<close>

text \<open>\<open>code_key\<close> (line 45), with the built-in \<open>hash\<close> as a parameter.\<close>

definition code_key :: "(str \<Rightarrow> int) \<Rightarrow> str \<Rightarrow> int" where
  "code_key hash src = hash src"

text \<open>\<open>cache\<close> (lines 103--110).\<close>

definition cache :: "str \<Rightarrow> str \<Rightarrow> world \<Rightarrow> world" where
  "cache filename src w =
     w\<lparr>linecache := (linecache w)(filename \<mapsto>
         (length src, None, map (\<lambda>line. line @ lit [CHR 0x0A]) (splitlines src), filename))\<rparr>"

text \<open>The early return of lines 172--185.\<close>

definition empty_cell :: "(str \<Rightarrow> int) \<Rightarrow> str \<Rightarrow> ast \<Rightarrow> str \<Rightarrow> 'c CellImpl" where
  "empty_cell hash src module cid =
     \<lparr>key = hash [], code = src, cell_mod = module, defs = {}, refs = {}, temporaries = {},
      variable_data = Map.empty, import_workspace = None, deleted_refs = {},
      language = lit ''python'', body = None, last_expr = None, cell_id = cid,
      test = None\<rparr>"

text \<open>
  Reading \<open>final_expr.end_col_offset\<close>: absent on the instance, the attribute is the
  class default \<open>None\<close> where the class lists it, and an \<open>AttributeError\<close> elsewhere.
\<close>

definition get_end_col_offset :: "node_info \<Rightarrow> exn + attr" where
  "get_end_col_offset i =
     (case end_col_offset i of
        Absent \<Rightarrow>
          (if lit ''end_col_offset'' \<in> set (attributes i) then Inr PyNone
           else Inl AttributeError)
      | a \<Rightarrow> Inr a)"

text \<open>\<open>x or 0\<close> on such a value.\<close>

definition or_zero :: "attr \<Rightarrow> int" where
  "or_zero a = (case a of PyInt n \<Rightarrow> (if n = 0 then 0 else n) | _ \<Rightarrow> 0)"

text \<open>A fresh node: no position attribute is set on the instance.\<close>

definition new_node :: "node_class \<Rightarrow> str list \<Rightarrow> node_info" where
  "new_node c attrs =
     \<lparr>cls = c, attributes = attrs, lineno = Absent, col_offset = Absent,
      end_lineno = Absent, end_col_offset = Absent\<rparr>"

text \<open>
  Lines 196--213.  The result is the copy kept as \<open>original_module\<close>, the module after
  the step, and the expression to evaluate.  \<open>module.body[-1]\<close> raises on an empty
  body; \<open>.value\<close> and \<open>.lineno\<close> raise where the node does not have them.
\<close>

definition split_trailing :: "(str \<Rightarrow> token list) \<Rightarrow> str \<Rightarrow> ast \<Rightarrow> exn + ast \<times> ast \<times> ast" where
  "split_trailing tokenize src module =
     (case rev (children module) of
        [] \<Rightarrow> Inl IndexError
      | final_expr # before \<Rightarrow>
          (let original_module = module in
           if cls (info final_expr) = Expr \<and> \<not> ends_with_semicolon tokenize src then
             (case children final_expr of
                [v] \<Rightarrow>
                  (case lineno (info final_expr) of
                     Absent \<Rightarrow> Inl AttributeError
                   | l \<Rightarrow>
                       (case get_end_col_offset (info final_expr) of
                          Inl e \<Rightarrow> Inl e
                        | Inr ec \<Rightarrow>
                            Inr (original_module,
                                 Node (info module) (rev before),
                                 Node ((new_node Expression [])
                                         \<lparr>lineno := l, col_offset := ec, end_col_offset := ec\<rparr>)
                                   [v])))
              | _ \<Rightarrow> Inl AttributeError)
           else
             (case get_end_col_offset (info final_expr) of
                Inl e \<Rightarrow> Inl e
              | Inr ec \<Rightarrow>
                  (let l = PyInt (int (length (splitlines src)) + 1);
                       const = Node ((new_node (Constant NoneValue) located)
                                       \<lparr>lineno := l, col_offset := PyInt (or_zero ec),
                                        end_col_offset := ec\<rparr>) []
                   in Inr (original_module,
                           module,
                           Node ((new_node Expression [])
                                   \<lparr>lineno := l, col_offset := ec, end_col_offset := ec\<rparr>)
                             [const])))))"

text \<open>
  Lines 215--226.  With an anchor, both trees are remapped and the file name is the
  anchor's; without one, the synthetic file name is registered in the line cache.
\<close>

definition anchor ::
  "str \<Rightarrow> str \<Rightarrow> str \<Rightarrow> source_position option \<Rightarrow> ast \<Rightarrow> ast \<Rightarrow> world
     \<Rightarrow> (exn + ast \<times> ast \<times> str) \<times> world" where
  "anchor tmp src cid source_pos module expr w =
     (case source_pos of
        Some sp \<Rightarrow>
          (case fix_source_position sp module of
             Inl e \<Rightarrow> (Inl e, w)
           | Inr module' \<Rightarrow>
               (case fix_source_position sp expr of
                  Inl e \<Rightarrow> (Inl e, w)
                | Inr expr' \<Rightarrow> (Inr (module', expr', sp_filename sp), w)))
      | None \<Rightarrow>
          (let filename = get_filename tmp cid []
           in (Inr (module, expr, filename), cache filename src w)))"

text \<open>The warning of line 239.\<close>

definition rewrite_warning :: str where
  "rewrite_warning = lit ''pytest is not installed, skipping assertion rewriting''"

text \<open>
  Lines 229--241.  Any exception of the import or of the call is caught and logged;
  the module is the object the call worked on.
\<close>

definition rewrite_step ::
  "(ast \<Rightarrow> str \<Rightarrow> str \<Rightarrow> rewrite_outcome) \<Rightarrow> bool \<Rightarrow> ast \<Rightarrow> str \<Rightarrow> str \<Rightarrow> world \<Rightarrow> ast \<times> world" where
  "rewrite_step rewrite wanted module src filename w =
     (if wanted then
        (case rewrite module src filename of
           ImportFailed \<Rightarrow> (module, w\<lparr>warnings := warnings w @ [rewrite_warning]\<rparr>)
         | Raised module' \<Rightarrow> (module', w\<lparr>warnings := warnings w @ [rewrite_warning]\<rparr>)
         | Rewritten module' \<Rightarrow> (module', w))
      else (module, w))"

text \<open>Line 251.\<close>

definition nonlocals_of :: "(str \<Rightarrow> bool) \<Rightarrow> visitor \<Rightarrow> str set" where
  "nonlocals_of local v = {name \<in> v_defs v. \<not> local name}"

text \<open>Lines 253--257.\<close>

definition variable_data_of :: "str set \<Rightarrow> visitor \<Rightarrow> (str \<rightharpoonup> variable_datum list)" where
  "variable_data_of nonlocals v =
     (\<lambda>name. if name \<in> nonlocals then v_variable_data v name else None)"

text \<open>
  Lines 262--271: the three nested loops, each adding to the set \<open>imported_defs\<close>.
\<close>

definition carried_defs ::
  "bool \<Rightarrow> import_data list option \<Rightarrow> (str \<rightharpoonup> variable_datum list) \<Rightarrow> str set" where
  "carried_defs import_block carried vdata =
     (case carried of
        None \<Rightarrow> {}
      | Some previous \<Rightarrow>
          (if import_block then
             (\<Union>data \<in> ran vdata. \<Union>datum \<in> set data.
                (case import_data datum of
                   None \<Rightarrow> {}
                 | Some imp \<Rightarrow>
                     (\<Union>previous_import_data \<in> set previous.
                        if previous_import_data = imp then {im_definition imp} else {})))
           else {}))"

subsection \<open>The function\<close>

definition compile_cell ::
  "'c env \<Rightarrow> str \<Rightarrow> str \<Rightarrow> source_position option \<Rightarrow> import_data list option \<Rightarrow> bool \<Rightarrow> world
     \<Rightarrow> (exn + 'c CellImpl) \<times> world" where
  "compile_cell env user_code cid source_pos carried_imports test_rewrite w =
     (let src = replace_nbsp user_code in
      case parse_module env src of
        Inl e \<Rightarrow> (Inl e, w)
      | Inr module \<Rightarrow>
      if children module = [] then (Inr (empty_cell (hash_of env) src module cid), w)
      else
        (let is_test = contains_only_tests (lower_of env) module;
             import_block = list_all is_import (children module)
         in
         case scoped_visit env (lit ''cell_'' @ cid) module of
           Inl e \<Rightarrow> (Inl e, w)
         | Inr (v, visited) \<Rightarrow>
         (case split_trailing (tokens_of env) src visited of
           Inl e \<Rightarrow> (Inl e, w)
         | Inr (original_module, module1, expr) \<Rightarrow>
         (case anchor (tmpdir env) src cid source_pos module1 expr w of
           (Inl e, w1) \<Rightarrow> (Inl e, w1)
         | (Inr (module2, expr2, filename), w1) \<Rightarrow>
         (case rewrite_step (rewrite_asserts env) (is_test \<or> test_rewrite)
                 module2 src filename w1 of
           (module3, w2) \<Rightarrow>
         (case compile_exec env module3 filename of
           Inl e \<Rightarrow> (Inl e, w2)
         | Inr body_code \<Rightarrow>
         (case compile_eval env expr2 filename of
           Inl e \<Rightarrow> (Inl e, w2)
         | Inr last_code \<Rightarrow>
             (let nonlocals = nonlocals_of (is_local env) v;
                  temps = v_defs v - nonlocals;
                  vdata = variable_data_of nonlocals v;
                  imported = carried_defs import_block carried_imports vdata
              in (Inr \<lparr>key = code_key (hash_of env) src, code = src,
                       cell_mod = original_module, defs = nonlocals, refs = v_refs v,
                       temporaries = temps, variable_data = vdata,
                       import_workspace =
                         Some \<lparr>is_import_block = import_block, imported_defs = imported\<rparr>,
                       deleted_refs = v_deleted_refs v, language = v_language v,
                       body = Some body_code, last_expr = Some last_code, cell_id = cid,
                       test = Some is_test\<rparr>, w2)))))))))"




section \<open>\<open>AppFileManager.rename\<close> (\<open>file_manager.py\<close>)\<close>

text \<open>
  What \<open>rename\<close> reads and writes of the manager: its file name and its app (of a type
  \<open>'app\<close> that is not looked into).
\<close>

record 'app AppFileManager =
  filename :: "str option"
  app :: 'app

text \<open>
  The operating system and the libraries behind \<open>rename\<close>, over a type \<open>'fs\<close> of file
  system states: \<open>os.path.abspath\<close>; \<open>canonicalize_filename\<close> (defined outside the source
  files); \<open>os.path.exists\<close>; the creation of the parent directories, whose exceptions
  are swallowed; \<open>Path.write_text\<close> and \<open>Path.rename\<close>, where \<open>None\<close> stands for an
  exception; and the text \<open>_save_file\<close> computes from the app, the manager's file name,
  the files, the target and the previous file name (by the exporter or the converter,
  which may raise).
\<close>

record ('app, 'fs) os =
  abspath :: "str \<Rightarrow> str"
  canonicalize_filename :: "str \<Rightarrow> str"
  path_exists :: "'fs \<Rightarrow> str \<Rightarrow> bool"
  make_parents :: "'fs \<Rightarrow> str \<Rightarrow> 'fs"
  write_text :: "'fs \<Rightarrow> str \<Rightarrow> str \<Rightarrow> 'fs option"
  rename_path :: "'fs \<Rightarrow> str \<Rightarrow> str \<Rightarrow> 'fs option"
  contents_of :: "'app \<Rightarrow> str option \<Rightarrow> 'fs \<Rightarrow> str \<Rightarrow> str option \<Rightarrow> exn + str"

text \<open>\<open>_is_same_path\<close> (lines 79--82).\<close>

definition is_same_path :: "('app, 'fs) os \<Rightarrow> 'app AppFileManager \<Rightarrow> str \<Rightarrow> bool" where
  "is_same_path sys self name =
     (case filename self of
        None \<Rightarrow> False
      | Some current \<Rightarrow> abspath sys current = abspath sys name)"

text \<open>\<open>_assert_path_does_not_exist\<close> (lines 84--89).\<close>

definition assert_path_does_not_exist :: "('app, 'fs) os \<Rightarrow> 'fs \<Rightarrow> str \<Rightarrow> exn + unit" where
  "assert_path_does_not_exist sys fs name =
     (if path_exists sys fs name
      then Inl (HTTPException (lit ''File '' @ name @ lit '' already exists''))
      else Inr ())"

text \<open>\<open>_create_file\<close> (lines 104--116).\<close>

definition create_file :: "('app, 'fs) os \<Rightarrow> 'fs \<Rightarrow> str \<Rightarrow> str \<Rightarrow> (exn + unit) \<times> 'fs" where
  "create_file sys fs name contents =
     (let fs1 = make_parents sys fs name in
      case write_text sys fs1 name contents of
        None \<Rightarrow> (Inl (HTTPException (lit ''Failed to save file '' @ name)), fs1)
      | Some fs2 \<Rightarrow> (Inr (), fs2))"

text \<open>\<open>_rename_file\<close> (lines 118--130).\<close>

definition rename_file ::
  "('app, 'fs) os \<Rightarrow> 'app AppFileManager \<Rightarrow> 'fs \<Rightarrow> str \<Rightarrow> (exn + unit) \<times> 'fs" where
  "rename_file sys self fs new_filename =
     (case filename self of
        None \<Rightarrow> (Inl AssertionError, fs)
      | Some current \<Rightarrow>
          (let fs1 = make_parents sys fs new_filename in
           case rename_path sys fs1 current new_filename of
             None \<Rightarrow>
               (Inl (HTTPException
                       (lit ''Failed to rename from '' @ current @ lit '' to '' @ new_filename)),
                fs1)
           | Some fs2 \<Rightarrow> (Inr (), fs2)))"

text \<open>\<open>s[-3:]\<close>.\<close>

definition last3 :: "str \<Rightarrow> str" where
  "last3 s = drop (length s - 3) s"

text \<open>
  \<open>rename\<close> (lines 223--251) and \<open>_save_file\<close> (lines 132--191), which call each other:
  \<open>rename\<close> saves after it has set the file name, and \<open>_save_file\<close> renames only a
  manager without a file name.  Each returns its result or exception together with the
  manager and the files as they are then.
\<close>

function rename ::
    "('app, 'fs) os \<Rightarrow> 'app AppFileManager \<Rightarrow> 'fs \<Rightarrow> str
       \<Rightarrow> (exn + unit) \<times> 'app AppFileManager \<times> 'fs"
  and save_file ::
    "('app, 'fs) os \<Rightarrow> 'app AppFileManager \<Rightarrow> 'fs \<Rightarrow> str \<Rightarrow> bool \<Rightarrow> str option
       \<Rightarrow> (exn + str) \<times> 'app AppFileManager \<times> 'fs"
where
  "rename sys self fs requested =
     (let new_filename = canonicalize_filename sys requested in
      if is_same_path sys self new_filename then (Inr (), self, fs)
      else
        (case assert_path_does_not_exist sys fs new_filename of
           Inl e \<Rightarrow> (Inl e, self, fs)
         | Inr u \<Rightarrow>
             (case (case filename self of
                      Some current \<Rightarrow>
                        (case rename_file sys self fs new_filename of
                           (Inl e, fs1) \<Rightarrow> (Inl e, fs1)
                         | (Inr u, fs1) \<Rightarrow> (Inr (last3 current \<noteq> last3 new_filename), fs1))
                    | None \<Rightarrow>
                        (case create_file sys fs new_filename [] of
                           (Inl e, fs1) \<Rightarrow> (Inl e, fs1)
                         | (Inr u, fs1) \<Rightarrow> (Inr False, fs1))) of
                (Inl e, fs1) \<Rightarrow> (Inl e, self, fs1)
              | (Inr needs_save, fs1) \<Rightarrow>
                  (if needs_save then
                     (case save_file sys (self\<lparr>filename := Some new_filename\<rparr>) fs1 new_filename
                             True (filename self) of
                        (Inl e, st) \<Rightarrow> (Inl e, st)
                      | (Inr contents, st) \<Rightarrow> (Inr (), st))
                   else (Inr (), self\<lparr>filename := Some new_filename\<rparr>, fs1)))))"
| "save_file sys self fs name persist previous_filename =
     (case contents_of sys (app self) (filename self) fs name previous_filename of
        Inl e \<Rightarrow> (Inl e, self, fs)
      | Inr contents \<Rightarrow>
          (case (if persist then create_file sys fs name contents else (Inr (), fs)) of
             (Inl e, fs1) \<Rightarrow> (Inl e, self, fs1)
           | (Inr u, fs1) \<Rightarrow>
               (if filename self = None then
                  (case rename sys self fs1 name of
                     (Inl e, st) \<Rightarrow> (Inl e, st)
                   | (Inr u, st) \<Rightarrow> (Inr contents, st))
                else (Inr contents, self, fs1))))"
  by pat_completeness auto
termination
  by (relation "measure (\<lambda>x. case x of
          Inl (sys, self, fs, requested) \<Rightarrow> (if filename self = None then 2 else 1)
        | Inr (sys, self, fs, name, persist, previous) \<Rightarrow>
            (if filename self = None then 3 else 0))")
     auto

section \<open>Concrete inputs\<close>

text \<open>
  Trees and facilities for the concrete inputs at which the theorems below are applied.
  The trees are those the parser of Python 3.11 returns for the texts (without the
  names and values the compiler does not read).  A node of a class with position
  attributes, from line \<open>l\<close>, column \<open>c\<close> to line \<open>l'\<close>, column \<open>c'\<close>, and a node of a
  class without:
\<close>

definition at_pos :: "node_class \<Rightarrow> int \<Rightarrow> int \<Rightarrow> int \<Rightarrow> int \<Rightarrow> ast list \<Rightarrow> ast" where
  "at_pos c l c0 l' c' cs =
     Node ((new_node c located)
             \<lparr>lineno := PyInt l, col_offset := PyInt c0, end_lineno := PyInt l',
              end_col_offset := PyInt c'\<rparr>) cs"

definition plain :: "string \<Rightarrow> ast" where
  "plain c = Node (new_node (OtherNode (lit c)) []) []"

definition module_of :: "ast list \<Rightarrow> ast" where
  "module_of stmts = Node (new_node Module []) stmts"

text \<open>
  Facilities that answer as Python's and the notebook's do on the texts used below: a
  hash that is \<open>0\<close> on the empty text, ASCII lower-casing, the naming convention "one
  leading underscore" for local names, a compiler that keeps the tree it is given as the
  code object.  The parser, the tokenizer, the visitor's result and the rewriter are
  given per input.
\<close>

definition stand_in ::
  "(str \<Rightarrow> exn + ast) \<Rightarrow> (str \<Rightarrow> token list) \<Rightarrow> visitor
     \<Rightarrow> (ast \<Rightarrow> str \<Rightarrow> str \<Rightarrow> rewrite_outcome) \<Rightarrow> ast env" where
  "stand_in parse tokenize v rewrite =
     \<lparr>hash_of = (\<lambda>s. int (sum_list s)),
      parse_module = parse,
      tokens_of = tokenize,
      lower_of = ascii_lower,
      scoped_visit = (\<lambda>prefix module. Inr (v, module)),
      is_local = (\<lambda>name. startswith name (lit ''_'') \<and> \<not> startswith name (lit ''__'')),
      rewrite_asserts = rewrite,
      compile_exec = (\<lambda>module filename. Inr module),
      compile_eval = (\<lambda>expr filename. Inr expr),
      tmpdir = lit ''/tmp''\<rparr>"

definition world0 :: world where
  "world0 = \<lparr>linecache = Map.empty, warnings = []\<rparr>"

text \<open>The cell \<open>import os\<close>.\<close>

definition os_import :: import_data where
  "os_import = \<lparr>im_module = lit ''os'', im_imported_symbol = None, im_definition = lit ''os''\<rparr>"

definition import_os_tree :: ast where
  "import_os_tree =
     module_of [at_pos Import 1 0 1 9 [at_pos (OtherNode (lit ''alias'')) 1 7 1 9 []]]"

definition import_os_visitor :: visitor where
  "import_os_visitor =
     \<lparr>v_defs = {lit ''os''}, v_refs = {},
      v_variable_data =
        [lit ''os'' \<mapsto> [\<lparr>vd_kind = lit ''import'', import_data = Some os_import\<rparr>]],
      v_deleted_refs = {}, v_language = lit ''python''\<rparr>"

definition import_os_env :: "ast env" where
  "import_os_env =
     stand_in (\<lambda>s. if s = lit ''import os'' then Inr import_os_tree else Inl SyntaxError)
       (\<lambda>s. []) import_os_visitor (\<lambda>module src filename. ImportFailed)"

text \<open>The statement \<open>x = 1\<close> on line 1.\<close>

definition assign_x_stmt :: ast where
  "assign_x_stmt =
     at_pos (OtherNode (lit ''Assign'')) 1 0 1 5
       [at_pos (OtherNode (lit ''Name'')) 1 0 1 1 [plain ''Store''],
        at_pos (Constant (OtherValue (lit ''1''))) 1 4 1 5 []]"

text \<open>
  The cell with the two lines \<open>x = 1\<close> and \<open>_y = x\<close>; the visitor reports the local
  name with the prefix of the cell.
\<close>

definition two_assign_code :: str where
  "two_assign_code = lit ''x = 1'' @ [10] @ lit ''_y = x''"

definition two_assign_tree :: ast where
  "two_assign_tree =
     module_of [assign_x_stmt,
                at_pos (OtherNode (lit ''Assign'')) 2 0 2 6
                  [at_pos (OtherNode (lit ''Name'')) 2 0 2 2 [plain ''Store''],
                   at_pos (OtherNode (lit ''Name'')) 2 5 2 6 [plain ''Load'']]]"

definition two_assign_visitor :: visitor where
  "two_assign_visitor =
     \<lparr>v_defs = {lit ''x'', lit ''_cell_Hbol_y''}, v_refs = {},
      v_variable_data =
        [lit ''x'' \<mapsto> [\<lparr>vd_kind = lit ''variable'', import_data = None\<rparr>],
         lit ''_cell_Hbol_y'' \<mapsto> [\<lparr>vd_kind = lit ''variable'', import_data = None\<rparr>]],
      v_deleted_refs = {}, v_language = lit ''python''\<rparr>"

definition two_assign_env :: "ast env" where
  "two_assign_env =
     stand_in (\<lambda>s. if s = two_assign_code then Inr two_assign_tree else Inl SyntaxError)
       (\<lambda>s. []) two_assign_visitor (\<lambda>module src filename. ImportFailed)"

text \<open>The cell that holds only the comment \<open>#\<close>: the parser returns an empty body.\<close>

definition comment_env :: "ast env" where
  "comment_env =
     stand_in (\<lambda>s. if s = lit ''#'' then Inr (module_of []) else Inl SyntaxError)
       (\<lambda>s. []) \<lparr>v_defs = {}, v_refs = {}, v_variable_data = Map.empty,
                 v_deleted_refs = {}, v_language = lit ''python''\<rparr>
       (\<lambda>module src filename. ImportFailed)"

text \<open>The cell with the two lines \<open>x = 1\<close> and \<open>return\<close>.\<close>

definition assign_return_tree :: ast where
  "assign_return_tree = module_of [assign_x_stmt, at_pos Return 2 0 2 6 []]"









text \<open>
  The cell with the two lines \<open>x = 1\<close> and \<open>x + 1\<close>, with the tokens of the standard
  tokenizer, and the same cell with a semicolon at the end.
\<close>

definition expr_cell_code :: str where
  "expr_cell_code = lit ''x = 1'' @ [10] @ lit ''x + 1''"

definition x_plus_1_value :: ast where
  "x_plus_1_value =
     at_pos (OtherNode (lit ''BinOp'')) 2 0 2 5
       [at_pos (OtherNode (lit ''Name'')) 2 0 2 1 [plain ''Load''],
        plain ''Add'',
        at_pos (Constant (OtherValue (lit ''1''))) 2 4 2 5 []]"

definition x_plus_1_stmt :: ast where
  "x_plus_1_stmt = at_pos Expr 2 0 2 5 [x_plus_1_value]"

definition expr_cell_tree :: ast where
  "expr_cell_tree = module_of [assign_x_stmt, x_plus_1_stmt]"

definition tok :: "token_type \<Rightarrow> string \<Rightarrow> token" where
  "tok ty s = \<lparr>tok_type = ty, tok_string = lit s\<rparr>"

definition expr_cell_tokens :: "token list" where
  "expr_cell_tokens =
     [tok ENCODING ''utf-8'', tok NAME ''x'', tok OP ''='', tok NUMBER ''1'',
      \<lparr>tok_type = NEWLINE, tok_string = [10]\<rparr>,
      tok NAME ''x'', tok OP ''+'', tok NUMBER ''1'', tok NEWLINE [], tok ENDMARKER []]"

definition semicolon_cell_tokens :: "token list" where
  "semicolon_cell_tokens =
     [tok ENCODING ''utf-8'', tok NAME ''x'', tok OP ''='', tok NUMBER ''1'',
      \<lparr>tok_type = NEWLINE, tok_string = [10]\<rparr>,
      tok NAME ''x'', tok OP ''+'', tok NUMBER ''1'', tok OP '';'', tok NEWLINE [],
      tok ENDMARKER []]"

definition expr_cell_tokenize :: "str \<Rightarrow> token list" where
  "expr_cell_tokenize s =
     (if s = expr_cell_code then expr_cell_tokens
      else if s = expr_cell_code @ lit '';'' then semicolon_cell_tokens
      else [])"

text \<open>
  A small tree for the remapper, built by hand: a module with an expression statement
  that has no end position, its value \<open>x\<close>, and a type-ignore comment on line 3; and an
  anchor ten lines down and four columns in.
\<close>

definition remap_tree :: ast where
  "remap_tree =
     Node (new_node Module [])
       [Node ((new_node Expr located)\<lparr>lineno := PyInt 1, col_offset := PyInt 0,
                end_lineno := PyNone\<rparr>)
          [at_pos (OtherNode (lit ''Name'')) 1 0 1 1 [plain ''Load'']],
        Node ((new_node TypeIgnore [])\<lparr>lineno := PyInt 3\<rparr>) []]"

definition remap_anchor :: source_position where
  "remap_anchor = \<lparr>sp_filename = lit ''/home/user/nb.py'', sp_lineno = 10, sp_col_offset = 4\<rparr>"

text \<open>
  A file system as a map from paths to contents, with the working directory
  \<open>/home/user\<close>, a \<open>canonicalize_filename\<close> that adds the extension \<open>.py\<close> where it is
  missing, and a notebook \<open>nb.py\<close> in it.
\<close>

definition map_os :: "(unit, str \<rightharpoonup> str) os" where
  "map_os =
     \<lparr>abspath = (\<lambda>path. if startswith path (lit ''/'') then path
                        else lit ''/home/user/'' @ path),
      canonicalize_filename = (\<lambda>name. if endswith name (lit ''.py'') then name
                        else name @ lit ''.py''),
      path_exists = (\<lambda>fs path. fs path \<noteq> None),
      make_parents = (\<lambda>fs path. fs),
      write_text = (\<lambda>fs path contents. Some (fs(path \<mapsto> contents))),
      rename_path = (\<lambda>fs old new.
         (case fs old of None \<Rightarrow> None | Some c \<Rightarrow> Some ((fs(old := None))(new \<mapsto> c)))),
      contents_of = (\<lambda>a current fs name previous. Inr (lit ''import marimo''))\<rparr>"

definition nb_manager :: "unit AppFileManager" where
  "nb_manager = \<lparr>filename = Some (lit ''nb.py''), app = ()\<rparr>"

definition nb_files :: "str \<rightharpoonup> str" where
  "nb_files = [lit ''nb.py'' \<mapsto> lit ''import marimo'']"

section \<open>Properties of the file names\<close>

lemma lit_simps: "lit [] = []" "lit (c # cs) = of_char c # lit cs"
  by (simp_all add: lit_def)

lemma startswith_prefix: "startswith s p = prefix p s"
  by (auto simp: startswith_def prefix_def) (metis append_eq_conv_conj)

lemma lazy_group_cell_id:
  "95 \<notin> set cid \<Longrightarrow> 10 \<notin> set cid \<Longrightarrow> lazy_group (cid @ 95 # rest) = Some cid"
  by (induction cid) auto

lemma marker_length: "length (lit ''__marimo__cell_'') = 15"
  by (simp add: lit_def)

lemma marker_no_slash: "47 \<notin> set (lit ''__marimo__cell_'')"
  by (simp add: lit_simps)

lemma match_here_marker:
  "95 \<notin> set cid \<Longrightarrow> 10 \<notin> set cid \<Longrightarrow>
   match_here (lit ''__marimo__cell_'' @ cid @ 95 # rest) = Some cid"
  by (simp add: match_here_def startswith_def lazy_group_cell_id)

lemma first_match_skip:
  "(\<And>i. i < length pre \<Longrightarrow> \<not> prefix (lit ''__marimo__cell_'') (drop i pre @ rest)) \<Longrightarrow>
   first_match (pre @ rest) = first_match rest"
proof (induction pre)
  case Nil
  then show ?case by simp
next
  case (Cons c pre)
  have "\<not> prefix (lit ''__marimo__cell_'') ((c # pre) @ rest)"
    using Cons.prems [of 0] by simp
  then have here: "match_here (c # pre @ rest) = None"
    by (simp add: match_here_def startswith_prefix)
  have "\<And>i. i < length pre \<Longrightarrow> \<not> prefix (lit ''__marimo__cell_'') (drop i pre @ rest)"
    using Cons.prems [of "Suc i" for i] by simp
  then have "first_match (pre @ rest) = first_match rest"
    by (rule Cons.IH)
  with here show ?case by simp
qed

lemma sublist_of_drop: "sublist xs (drop i ys) \<Longrightarrow> sublist xs ys"
proof -
  assume "sublist xs (drop i ys)"
  then obtain ps ss where "drop i ys = ps @ xs @ ss" by (auto simp: sublist_def)
  then have "ys = (take i ys @ ps) @ xs @ ss" by (metis append_take_drop_id append_assoc)
  then show ?thesis unfolding sublist_def by blast
qed

lemma sublist_of_butlast: "sublist xs t \<Longrightarrow> sublist xs (t @ ys)"
proof -
  assume "sublist xs t"
  then obtain ps ss where "t = ps @ xs @ ss" by (auto simp: sublist_def)
  then have "t @ ys = ps @ xs @ (ss @ ys)" by simp
  then show ?thesis unfolding sublist_def by blast
qed

lemma no_marker_before_slash:
  assumes "\<not> sublist (lit ''__marimo__cell_'') t"
  shows "\<not> prefix (lit ''__marimo__cell_'') (drop i t @ 47 # rest)"
proof
  assume "prefix (lit ''__marimo__cell_'') (drop i t @ 47 # rest)"
  then consider "prefix (lit ''__marimo__cell_'') (drop i t)"
    | us where "lit ''__marimo__cell_'' = drop i t @ us" "prefix us (47 # rest)"
    by (auto simp: prefix_append)
  then show False
  proof cases
    case 1
    then have "sublist (lit ''__marimo__cell_'') (drop i t)"
      by (rule prefix_imp_sublist)
    then have "sublist (lit ''__marimo__cell_'') t"
      by (rule sublist_of_drop)
    with assms show False by simp
  next
    case 2
    show False
    proof (cases us)
      case Nil
      with 2 have "sublist (lit ''__marimo__cell_'') (drop i t)"
        by simp
      then have "sublist (lit ''__marimo__cell_'') t"
        by (rule sublist_of_drop)
      with assms show False by simp
    next
      case (Cons u us')
      with 2 have "u = 47" by simp
      with 2 Cons have "47 \<in> set (lit ''__marimo__cell_'')" by simp
      then show False by (simp add: marker_no_slash)
    qed
  qed
qed

lemma first_match_after_dir:
  assumes "\<not> sublist (lit ''__marimo__cell_'') t"
  shows "first_match ((t @ [47]) @ rest) = first_match rest"
proof (rule first_match_skip)
  fix i assume "i < length (t @ [47])"
  then have "i \<le> length t" by simp
  then have "drop i (t @ [47]) @ rest = drop i t @ 47 # rest" by simp
  then show "\<not> prefix (lit ''__marimo__cell_'') (drop i (t @ [47]) @ rest)"
    using no_marker_before_slash [OF assms] by simp
qed

lemma first_match_marker:
  "95 \<notin> set cid \<Longrightarrow> 10 \<notin> set cid \<Longrightarrow>
   first_match (lit ''__marimo__cell_'' @ cid @ 95 # rest) = Some cid"
  using match_here_marker [of cid rest]
  by (simp add: lit_simps)

text \<open>
  Claim C9, as amended.  For a cell id that contains neither an underscore nor a line
  feed, any suffix, and a temporary directory whose path does not contain the marker
  \<open>__marimo__cell_\<close>, the inverse parser recovers the cell id from the synthetic file
  name: \<open>cell_id_from_filename (get_filename cell_id suffix) = cell_id\<close>.
\<close>

theorem cell_id_roundtrip:
  assumes "95 \<notin> set cid" and "10 \<notin> set cid"
    and "\<not> sublist (lit ''__marimo__cell_'') dir"
  shows "cell_id_from_filename (get_filename dir cid sfx) = Some cid"
proof -
  let ?base = "lit ''__marimo__cell_'' @ cid @ 95 # sfx @ lit ''.py''"
  have fm: "first_match ?base = Some cid"
    using assms(1,2) by (rule first_match_marker)
  have b: "lit ''__marimo__cell_'' @ cid @ lit ''_'' @ sfx @ lit ''.py'' = ?base"
    by (simp add: lit_simps)
  have nostart: "\<not> startswith ?base (lit ''/'')"
    by (simp add: startswith_def lit_simps)
  show ?thesis
  proof (cases "dir = []")
    case True
    then show ?thesis
      using fm nostart by (simp add: cell_id_from_filename_def get_filename_def path_join_def b)
  next
    case False
    show ?thesis
    proof (cases "endswith dir (lit ''/'')")
      case True
      then obtain t where t: "dir = t @ [47]"
        using False by (cases dir rule: rev_cases) (auto simp: endswith_def lit_simps)
      then have "\<not> sublist (lit ''__marimo__cell_'') t"
        using assms(3) sublist_of_butlast [of "lit ''__marimo__cell_''" t "[47]"] by auto
      then have "first_match ((t @ [47]) @ ?base) = first_match ?base"
        by (rule first_match_after_dir)
      then show ?thesis
        using fm nostart True t
        by (simp add: cell_id_from_filename_def get_filename_def path_join_def b)
    next
      case False
      have "first_match ((dir @ [47]) @ ?base) = first_match ?base"
        using assms(3) by (rule first_match_after_dir)
      then show ?thesis
        using fm nostart False \<open>dir \<noteq> []\<close>
        by (simp add: cell_id_from_filename_def get_filename_def path_join_def b lit_simps)
    qed
  qed
qed

theorem cell_id_roundtrip_witness:
  "95 \<notin> set (lit ''Hbol'') \<and> 10 \<notin> set (lit ''Hbol'') \<and>
   \<not> sublist (lit ''__marimo__cell_'') (lit ''/tmp'') \<and>
   cell_id_from_filename (get_filename (lit ''/tmp'') (lit ''Hbol'') (lit ''_output'')) =
     Some (lit ''Hbol'')"
  using cell_id_roundtrip [of "lit ''Hbol''" "lit ''/tmp''" "lit ''_output''"]
  by (simp add: lit_simps sublist_code)

text \<open>
  The claim as stated fails for a cell id with an underscore: from the file name of the
  cell id \<open>a_b\<close> in \<open>/tmp\<close> the parser returns \<open>a\<close>.
\<close>

theorem cell_id_roundtrip_counterexample:
  "cell_id_from_filename (get_filename (lit ''/tmp'') (lit ''a_b'') []) = Some (lit ''a'') \<and>
   cell_id_from_filename (get_filename (lit ''/tmp'') (lit ''a_b'') []) \<noteq> Some (lit ''a_b'')"
  by (simp add: cell_id_from_filename_def get_filename_def path_join_def startswith_def
      endswith_def match_here_def lit_simps)

section \<open>Properties of the compiler\<close>

lemma tests_loop_dropWhile:
  "tests_loop lower scope stmts =
     (case dropWhile (is_test_def lower) stmts of
        [] \<Rightarrow> scope \<noteq> []
      | r # rest \<Rightarrow> is_return r)"
  by (induction stmts) (auto simp: is_test_def_def is_return_def split: node_class.splits)

lemma compile_cell_returns:
  assumes "compile_cell env user_code cid source_pos carried test_rewrite w = (Inr cell, w')"
  obtains (empty) m where
      "parse_module env (replace_nbsp user_code) = Inr m" "children m = []"
      "cell = empty_cell (hash_of env) (replace_nbsp user_code) m cid" "w' = w"
  | (full) m v visited original m1 expr m2 expr2 filename w1 m3 body_code last_code where
      "parse_module env (replace_nbsp user_code) = Inr m" "children m \<noteq> []"
      "scoped_visit env (lit ''cell_'' @ cid) m = Inr (v, visited)"
      "split_trailing (tokens_of env) (replace_nbsp user_code) visited = Inr (original, m1, expr)"
      "anchor (tmpdir env) (replace_nbsp user_code) cid source_pos m1 expr w
         = (Inr (m2, expr2, filename), w1)"
      "rewrite_step (rewrite_asserts env)
         (contains_only_tests (lower_of env) m \<or> test_rewrite) m2 (replace_nbsp user_code)
         filename w1 = (m3, w')"
      "compile_exec env m3 filename = Inr body_code"
      "compile_eval env expr2 filename = Inr last_code"
      "cell = \<lparr>key = code_key (hash_of env) (replace_nbsp user_code),
               code = replace_nbsp user_code, cell_mod = original,
               defs = nonlocals_of (is_local env) v, refs = v_refs v,
               temporaries = v_defs v - nonlocals_of (is_local env) v,
               variable_data = variable_data_of (nonlocals_of (is_local env) v) v,
               import_workspace =
                 Some \<lparr>is_import_block = list_all is_import (children m),
                       imported_defs =
                         carried_defs (list_all is_import (children m)) carried
                           (variable_data_of (nonlocals_of (is_local env) v) v)\<rparr>,
               deleted_refs = v_deleted_refs v, language = v_language v,
               body = Some body_code, last_expr = Some last_code, cell_id = cid,
               test = Some (contains_only_tests (lower_of env) m)\<rparr>"
  using assms unfolding compile_cell_def Let_def
  by (auto split: sum.splits prod.splits if_splits)

text \<open>
  Without an anchor, the evaluator of a returned cell is compiled from the expression of
  the step of lines 196--213, applied to the module as the visitor left it.
\<close>

lemma compile_cell_evaluator:
  assumes "compile_cell env user_code cid None carried test_rewrite w = (Inr cell, w')"
    and "body cell \<noteq> None"
  shows "\<exists>m v visited module1 expr evaluator.
           parse_module env (replace_nbsp user_code) = Inr m \<and>
           scoped_visit env (lit ''cell_'' @ cid) m = Inr (v, visited) \<and>
           split_trailing (tokens_of env) (replace_nbsp user_code) visited
             = Inr (cell_mod cell, module1, expr) \<and>
           compile_eval env expr (get_filename (tmpdir env) cid []) = Inr evaluator \<and>
           last_expr cell = Some evaluator"
  using assms(1)
proof (cases rule: compile_cell_returns)
  case (empty m)
  with assms(2) show ?thesis by (simp add: empty_cell_def)
next
  case (full m v visited original m1 expr m2 expr2 fname w1 m3 body_code last_code)
  from full(5) have "expr2 = expr" "fname = get_filename (tmpdir env) cid []"
    by (simp_all add: anchor_def Let_def)
  with full show ?thesis by simp
qed

lemmas demo_defs = stand_in_def world0_def os_import_def import_os_tree_def import_os_visitor_def
  import_os_env_def module_of_def at_pos_def plain_def assign_x_stmt_def new_node_def located_def
  two_assign_code_def two_assign_tree_def two_assign_visitor_def two_assign_env_def comment_env_def

lemmas step_defs = compile_cell_def split_trailing_def anchor_def rewrite_step_def
  contains_only_tests_def is_import_def replace_nbsp_def get_end_col_offset_def
  ends_with_semicolon_def empty_cell_def code_key_def

lemma replace_nbsp_same: "160 \<notin> set s \<Longrightarrow> replace_nbsp s = s"
  by (induction s) (auto simp: replace_nbsp_def)

lemma import_os_compiles:
  "\<exists>c w. compile_cell import_os_env (lit ''import os'') (lit ''Hbol'') None
            (Some [os_import]) False world0 = (Inr c, w)"
  by (simp add: step_defs demo_defs lit_simps Let_def)

lemma two_assign_compiles:
  "\<exists>c w. compile_cell two_assign_env two_assign_code (lit ''Hbol'') None None False world0
            = (Inr c, w)"
  by (simp add: step_defs demo_defs lit_simps Let_def)

text \<open>
  Claim C1, as amended.  For every text that \<open>compile_cell\<close> accepts and that contains no
  non-breaking space: when the parsed body is not empty, the key of the returned cell is
  the hash of the text as passed in; when the parsed body is empty, it is the hash of the
  empty text.  (The key is a function of the text, so equal texts give equal keys.)
\<close>
theorem key_of_user_text:
  assumes "compile_cell env user_code cid source_pos carried test_rewrite w = (Inr cell, w')"
    and "160 \<notin> set user_code"
    and "parse_module env user_code = Inr m"
  shows "key cell = (if children m = [] then hash_of env [] else hash_of env user_code)"
  using assms(1)
proof (cases rule: compile_cell_returns)
  case (empty m')
  then show ?thesis using assms(2,3) by (simp add: replace_nbsp_same empty_cell_def)
next
  case (full m' v visited original m1 expr m2 expr2 filename w1 m3 body_code last_code)
  then show ?thesis using assms(2,3) by (simp add: replace_nbsp_same code_key_def)
qed

theorem key_of_user_text_witness:
  "\<exists>c w. compile_cell import_os_env (lit ''import os'') (lit ''Hbol'') None
            (Some [os_import]) False world0 = (Inr c, w) \<and>
          160 \<notin> set (lit ''import os'') \<and>
          parse_module import_os_env (lit ''import os'') = Inr import_os_tree \<and>
          key c = hash_of import_os_env (lit ''import os'')"
proof -
  obtain c w where h: "compile_cell import_os_env (lit ''import os'') (lit ''Hbol'') None
            (Some [os_import]) False world0 = (Inr c, w)"
    using import_os_compiles by blast
  have n: "160 \<notin> set (lit ''import os'')" by (simp add: lit_simps)
  have p: "parse_module import_os_env (lit ''import os'') = Inr import_os_tree"
    by (simp add: import_os_env_def stand_in_def)
  have "children import_os_tree \<noteq> []" by (simp add: import_os_tree_def module_of_def)
  with key_of_user_text [OF h n p] have "key c = hash_of import_os_env (lit ''import os'')"
    by simp
  with h n p show ?thesis by blast
qed

text \<open>
  The claim as stated fails on a cell that holds only a comment: the key is the hash of
  the empty text (\<open>0\<close>, as in Python), not the hash of the text \<open>#\<close>.
\<close>

theorem key_of_user_text_counterexample:
  "fst (compile_cell comment_env (lit ''#'') (lit ''Hbol'') None None False world0)
     = Inr (empty_cell (hash_of comment_env) (lit ''#'') (module_of []) (lit ''Hbol'')) \<and>
   key (empty_cell (hash_of comment_env) (lit ''#'') (module_of []) (lit ''Hbol'')
          :: ast CellImpl) \<noteq> hash_of comment_env (lit ''#'')"
  by (simp add: step_defs demo_defs lit_simps)

lemma two_assign_cell_fields:
  assumes "compile_cell two_assign_env two_assign_code (lit ''Hbol'') None None False world0
            = (Inr c, w)"
  shows "defs c = {lit ''x''}" and "temporaries c = {lit ''_cell_Hbol_y''}"
  using assms
  by (auto simp: step_defs demo_defs lit_simps Let_def nonlocals_of_def startswith_def)

text \<open>
  Claim C3.  For every cell that \<open>compile_cell\<close> returns, \<open>defs\<close> and \<open>temporaries\<close> are
  disjoint, and every key of \<open>variable_data\<close> is a member of \<open>defs\<close>.
\<close>
theorem defs_and_temporaries:
  assumes "compile_cell env user_code cid source_pos carried test_rewrite w = (Inr cell, w')"
  shows "defs cell \<inter> temporaries cell = {} \<and> dom (variable_data cell) \<subseteq> defs cell"
  using assms
proof (cases rule: compile_cell_returns)
  case (empty m)
  then show ?thesis by (simp add: empty_cell_def)
next
  case (full m v visited original m1 expr m2 expr2 filename w1 m3 body_code last_code)
  then show ?thesis
    by (auto simp: nonlocals_of_def variable_data_of_def dom_def split: if_splits)
qed

theorem defs_and_temporaries_witness:
  "\<exists>c w. compile_cell two_assign_env two_assign_code (lit ''Hbol'') None None False world0
            = (Inr c, w) \<and>
          defs c = {lit ''x''} \<and> temporaries c = {lit ''_cell_Hbol_y''} \<and>
          defs c \<inter> temporaries c = {} \<and> dom (variable_data c) \<subseteq> defs c"
proof -
  obtain c w where h: "compile_cell two_assign_env two_assign_code (lit ''Hbol'') None None
      False world0 = (Inr c, w)"
    using two_assign_compiles by blast
  from defs_and_temporaries [OF h] two_assign_cell_fields [OF h] h show ?thesis by blast
qed

text \<open>
  Claim C4.  When the parsed body is empty, \<open>compile_cell\<close> returns normally, leaves the
  line cache and the log alone, and the cell has empty \<open>defs\<close>, \<open>refs\<close> and
  \<open>temporaries\<close>, no statement body, no trailing-expression evaluator, and the hash of
  the empty text as key.
\<close>
theorem empty_body_cell:
  assumes "parse_module env (replace_nbsp user_code) = Inr m" and "children m = []"
  shows "\<exists>cell. compile_cell env user_code cid source_pos carried test_rewrite w = (Inr cell, w) \<and>
           defs cell = {} \<and> refs cell = {} \<and> temporaries cell = {} \<and>
           body cell = None \<and> last_expr cell = None \<and> key cell = hash_of env []"
  using assms by (simp add: compile_cell_def empty_cell_def)

theorem empty_body_cell_witness:
  "parse_module comment_env (replace_nbsp (lit ''#'')) = Inr (module_of []) \<and>
   children (module_of []) = [] \<and>
   (\<exists>cell. compile_cell comment_env (lit ''#'') (lit ''Hbol'') None None False world0
              = (Inr cell, world0) \<and>
           defs cell = {} \<and> refs cell = {} \<and> temporaries cell = {} \<and>
           body cell = None \<and> last_expr cell = None \<and> key cell = 0)"
proof -
  have p: "parse_module comment_env (replace_nbsp (lit ''#'')) = Inr (module_of [])"
    by (simp add: comment_env_def stand_in_def replace_nbsp_def lit_simps)
  have c: "children (module_of []) = []" by (simp add: module_of_def)
  have "hash_of comment_env [] = 0" by (simp add: comment_env_def stand_in_def)
  with empty_body_cell [OF p c, of "lit ''Hbol''" None None False world0] p c
  show ?thesis by simp
qed


text \<open>
  Claim C5, as amended.  A module is classified test-only exactly when its body is not
  empty and either every top-level statement is a function or class definition whose
  lower-cased name starts with \<open>test\<close>, or the first top-level statement that is not such
  a definition is a return statement.  For a non-empty parsed module the returned cell
  carries that classification, and it is import-only exactly when every top-level
  statement is an import statement.
\<close>
theorem cell_classification:
  "contains_only_tests lower m =
     (children m \<noteq> [] \<and>
      (list_all (is_test_def lower) (children m) \<or>
       (case dropWhile (is_test_def lower) (children m) of
          [] \<Rightarrow> False
        | r # rest \<Rightarrow> is_return r))) \<and>
   (compile_cell env user_code cid source_pos carried test_rewrite w = (Inr cell, w') \<and>
    parse_module env (replace_nbsp user_code) = Inr m' \<and> children m' \<noteq> [] \<longrightarrow>
      test cell = Some (contains_only_tests (lower_of env) m') \<and>
      (\<exists>iw. import_workspace cell = Some iw \<and>
            is_import_block iw = (\<forall>stmt \<in> set (children m'). is_import stmt)))"
proof (intro conjI impI)
  show "contains_only_tests lower m =
     (children m \<noteq> [] \<and>
      (list_all (is_test_def lower) (children m) \<or>
       (case dropWhile (is_test_def lower) (children m) of
          [] \<Rightarrow> False
        | r # rest \<Rightarrow> is_return r)))"
  proof (cases "dropWhile (is_test_def lower) (children m)")
    case Nil
    then have all: "list_all (is_test_def lower) (children m)"
      by (simp add: list_all_iff dropWhile_eq_Nil_conv)
    have "contains_only_tests lower m = (children m \<noteq> [])"
      unfolding contains_only_tests_def Let_def tests_loop_dropWhile Nil by simp
    with all show ?thesis unfolding Nil by simp
  next
    case (Cons r rest)
    then have "r \<in> set (children m)" "\<not> is_test_def lower r"
      using set_dropWhileD [of r "is_test_def lower" "children m"] hd_dropWhile [of "is_test_def lower" "children m"]
      by auto
    then have no: "\<not> list_all (is_test_def lower) (children m)" "children m \<noteq> []"
      by (auto simp: list_all_iff)
    have "contains_only_tests lower m = is_return r"
      unfolding contains_only_tests_def Let_def tests_loop_dropWhile Cons by simp
    with no show ?thesis unfolding Cons by simp
  qed
next
  assume a: "compile_cell env user_code cid source_pos carried test_rewrite w = (Inr cell, w') \<and>
    parse_module env (replace_nbsp user_code) = Inr m' \<and> children m' \<noteq> []"
  then have c: "compile_cell env user_code cid source_pos carried test_rewrite w = (Inr cell, w')"
    by simp
  from c show "test cell = Some (contains_only_tests (lower_of env) m')"
    by (cases rule: compile_cell_returns) (use a in auto)
  from c show "\<exists>iw. import_workspace cell = Some iw \<and>
            is_import_block iw = (\<forall>stmt \<in> set (children m'). is_import stmt)"
    by (cases rule: compile_cell_returns) (use a in \<open>auto simp: list_all_iff\<close>)
qed

theorem cell_classification_witness:
  "\<exists>c w iw. compile_cell import_os_env (lit ''import os'') (lit ''Hbol'') None
            (Some [os_import]) False world0 = (Inr c, w) \<and>
     parse_module import_os_env (replace_nbsp (lit ''import os'')) = Inr import_os_tree \<and>
     children import_os_tree \<noteq> [] \<and>
     test c = Some False \<and> import_workspace c = Some iw \<and> is_import_block iw"
proof -
  obtain c w where h: "compile_cell import_os_env (lit ''import os'') (lit ''Hbol'') None
            (Some [os_import]) False world0 = (Inr c, w)"
    using import_os_compiles by blast
  have p: "parse_module import_os_env (replace_nbsp (lit ''import os'')) = Inr import_os_tree"
    by (simp add: import_os_env_def stand_in_def replace_nbsp_def lit_simps)
  have n: "children import_os_tree \<noteq> []" by (simp add: import_os_tree_def module_of_def)
  have t: "\<not> contains_only_tests (lower_of import_os_env) import_os_tree"
    by (simp add: contains_only_tests_def import_os_tree_def module_of_def at_pos_def
        new_node_def)
  have i: "\<forall>stmt \<in> set (children import_os_tree). is_import stmt"
    by (simp add: import_os_tree_def module_of_def at_pos_def new_node_def is_import_def)
  from cell_classification [of ascii_lower import_os_tree import_os_env "lit ''import os''"
      "lit ''Hbol''" None "Some [os_import]" False world0 c w import_os_tree] h p n
  have "test c = Some (contains_only_tests (lower_of import_os_env) import_os_tree) \<and>
      (\<exists>iw. import_workspace c = Some iw \<and>
            is_import_block iw = (\<forall>stmt \<in> set (children import_os_tree). is_import stmt))"
    by blast
  with t i h p n show ?thesis by auto
qed

text \<open>
  The claim as stated fails when a return follows a statement that is not a test
  definition: the loop returns \<open>False\<close> at the assignment and never reaches the return.
\<close>

theorem cell_classification_counterexample:
  "\<not> contains_only_tests ascii_lower assign_return_tree \<and>
   list_ex is_return (children assign_return_tree)"
  by (simp add: contains_only_tests_def assign_return_tree_def module_of_def at_pos_def
      assign_x_stmt_def new_node_def is_return_def lit_simps)

text \<open>
  Claim C6.  In a cell that \<open>compile_cell\<close> returns with an import workspace,
  \<open>imported_defs\<close> is non-empty only when the cell is import-only and a record of
  carried imports was supplied; and then it holds exactly the names bound by the import
  descriptors of the cell's definitions that are equal, as descriptors, to one of the
  supplied record.  Where every descriptor is filed under the name it binds, these are
  exactly the defined names that have such a descriptor.
\<close>
theorem imported_defs_carried_over:
  assumes "compile_cell env user_code cid source_pos carried test_rewrite w = (Inr cell, w')"
    and "import_workspace cell = Some iw"
  shows "(imported_defs iw \<noteq> {} \<longrightarrow> is_import_block iw \<and> carried \<noteq> None) \<and>
         (\<forall>previous. is_import_block iw \<and> carried = Some previous \<longrightarrow>
            imported_defs iw =
              {im_definition imp | imp name data datum.
                 name \<in> defs cell \<and> variable_data cell name = Some data \<and>
                 datum \<in> set data \<and> import_data datum = Some imp \<and> imp \<in> set previous} \<and>
            ((\<forall>name data datum imp.
                 variable_data cell name = Some data \<and> datum \<in> set data \<and>
                 import_data datum = Some imp \<longrightarrow> im_definition imp = name) \<longrightarrow>
              imported_defs iw =
                {name \<in> defs cell. \<exists>data datum imp.
                   variable_data cell name = Some data \<and> datum \<in> set data \<and>
                   import_data datum = Some imp \<and> imp \<in> set previous}))"
  using assms(1)
proof (cases rule: compile_cell_returns)
  case (empty m)
  then show ?thesis using assms(2) by (simp add: empty_cell_def)
next
  case (full m v visited original m1 expr m2 expr2 filename w1 m3 body_code last_code)
  let ?vd = "variable_data_of (nonlocals_of (is_local env) v) v"
  have iw: "iw = \<lparr>is_import_block = list_all is_import (children m),
                  imported_defs = carried_defs (list_all is_import (children m)) carried ?vd\<rparr>"
    using full(9) assms(2) by simp
  have vd: "variable_data cell = ?vd" and df: "defs cell = nonlocals_of (is_local env) v"
    using full(9) by simp_all
  have keys: "\<And>name data. ?vd name = Some data \<Longrightarrow> name \<in> defs cell"
    by (simp add: df variable_data_of_def split: if_splits)
  have one: "imported_defs iw \<noteq> {} \<longrightarrow> is_import_block iw \<and> carried \<noteq> None"
    by (auto simp: iw carried_defs_def split: option.splits if_splits)
  have two: "imported_defs iw =
              {im_definition imp | imp name data datum.
                 name \<in> defs cell \<and> variable_data cell name = Some data \<and>
                 datum \<in> set data \<and> import_data datum = Some imp \<and> imp \<in> set previous}"
    if "is_import_block iw" "carried = Some previous" for previous
  proof -
    have "imported_defs iw =
       (\<Union>data \<in> ran ?vd. \<Union>datum \<in> set data.
                (case import_data datum of
                   None \<Rightarrow> {}
                 | Some imp \<Rightarrow>
                     (\<Union>p \<in> set previous. if p = imp then {im_definition imp} else {})))"
      using that by (simp add: iw carried_defs_def)
    also have "\<dots> = {im_definition imp | imp name data datum.
                 name \<in> defs cell \<and> ?vd name = Some data \<and>
                 datum \<in> set data \<and> import_data datum = Some imp \<and> imp \<in> set previous}"
      (is "?L = ?R")
    proof (intro set_eqI iffI)
      fix x assume "x \<in> ?L"
      then obtain data datum where d: "data \<in> ran ?vd" "datum \<in> set data"
        "x \<in> (case import_data datum of None \<Rightarrow> {}
                 | Some imp \<Rightarrow> (\<Union>p \<in> set previous. if p = imp then {im_definition imp} else {}))"
        by blast
      then obtain imp where i: "import_data datum = Some imp" by (cases "import_data datum") auto
      with d(3) have x: "x = im_definition imp" "imp \<in> set previous"
        by (auto split: if_splits)
      from d(1) obtain name where n: "?vd name = Some data" by (auto simp: ran_def)
      with keys have "name \<in> defs cell" by blast
      with n d(2) i x show "x \<in> ?R" by blast
    next
      fix x assume "x \<in> ?R"
      then obtain imp name data datum where r: "x = im_definition imp" "?vd name = Some data"
        "datum \<in> set data" "import_data datum = Some imp" "imp \<in> set previous"
        by blast
      then have "data \<in> ran ?vd" by (auto simp: ran_def)
      moreover have "x \<in> (case import_data datum of None \<Rightarrow> {}
                 | Some imp \<Rightarrow> (\<Union>p \<in> set previous. if p = imp then {im_definition imp} else {}))"
        using r by auto
      ultimately show "x \<in> ?L" using r(3) by blast
    qed
    finally show ?thesis by (simp add: vd)
  qed
  have three: "imported_defs iw =
                {name \<in> defs cell. \<exists>data datum imp.
                   variable_data cell name = Some data \<and> datum \<in> set data \<and>
                   import_data datum = Some imp \<and> imp \<in> set previous}"
    if "is_import_block iw" "carried = Some previous"
      and c: "\<forall>name data datum imp.
                 variable_data cell name = Some data \<and> datum \<in> set data \<and>
                 import_data datum = Some imp \<longrightarrow> im_definition imp = name" for previous
    unfolding two [OF that(1,2)] using c by (auto simp: vd) blast+
  from one two three show ?thesis by blast
qed

lemma import_os_cell_fields:
  assumes "compile_cell import_os_env (lit ''import os'') (lit ''Hbol'') None
            (Some [os_import]) False world0 = (Inr c, w)"
  shows "defs c = {lit ''os''}"
    and "variable_data c = (\<lambda>name. if name = lit ''os''
            then Some [\<lparr>vd_kind = lit ''import'', import_data = Some os_import\<rparr>] else None)"
    and "\<exists>iw. import_workspace c = Some iw \<and> is_import_block iw"
  using assms
  by (auto simp: step_defs demo_defs lit_simps Let_def nonlocals_of_def variable_data_of_def
      startswith_def fun_eq_iff)

theorem imported_defs_carried_over_witness:
  "\<exists>c w iw. compile_cell import_os_env (lit ''import os'') (lit ''Hbol'') None
            (Some [os_import]) False world0 = (Inr c, w) \<and>
     import_workspace c = Some iw \<and> is_import_block iw \<and>
     imported_defs iw = {lit ''os''}"
proof -
  obtain c w where h: "compile_cell import_os_env (lit ''import os'') (lit ''Hbol'') None
            (Some [os_import]) False world0 = (Inr c, w)"
    using import_os_compiles by blast
  from import_os_cell_fields(3) [OF h] obtain iw
    where iw: "import_workspace c = Some iw" "is_import_block iw" by blast
  note f = import_os_cell_fields(1,2) [OF h]
  from imported_defs_carried_over [OF h iw(1)] iw(2)
  have "imported_defs iw =
      {im_definition imp | imp name data datum.
         name \<in> defs c \<and> variable_data c name = Some data \<and>
         datum \<in> set data \<and> import_data datum = Some imp \<and> imp \<in> set [os_import]}"
    by blast
  also have "\<dots> = {lit ''os''}"
    by (auto simp: f os_import_def)
  finally show ?thesis using h iw by blast
qed







section \<open>Properties of the trailing expression\<close>





lemmas expr_cell_defs = expr_cell_code_def expr_cell_tree_def tok_def expr_cell_tokens_def
  semicolon_cell_tokens_def expr_cell_tokenize_def module_of_def at_pos_def plain_def
  x_plus_1_value_def x_plus_1_stmt_def assign_x_stmt_def new_node_def
  located_def




section \<open>Properties of the position remapper\<close>

lemma collect_map_Inr:
  "(\<And>x. x \<in> set xs \<Longrightarrow> f x = Inr (g x)) \<Longrightarrow> collect (map f xs) = Inr (map g xs)"
  by (induction xs) auto

lemma moved_shift_optional: "moved a off (shift_optional a off)"
  by (cases a) (simp_all add: moved_def shift_optional_def)

lemma shift_default_int: "is_int a \<Longrightarrow> shift_default a off = Inr (shift_optional a off)"
  by (cases a) (simp_all add: is_int_def shift_default_def shift_optional_def)

lemma fix_node_eq:
  assumes "node_ok i"
  shows "fix_node sp i =
     Inr (if cls i = TypeIgnore then i\<lparr>lineno := shift_optional (lineno i) (sp_lineno sp)\<rparr>
          else i\<lparr>lineno := (if lit ''lineno'' \<in> set (attributes i)
                             then shift_optional (lineno i) (sp_lineno sp) else lineno i),
                 col_offset := (if lit ''col_offset'' \<in> set (attributes i)
                             then shift_optional (col_offset i) (sp_col_offset sp)
                             else col_offset i),
                 end_lineno := (if lit ''end_lineno'' \<in> set (attributes i)
                             then shift_optional (end_lineno i) (sp_lineno sp)
                             else end_lineno i),
                 end_col_offset := (if lit ''end_col_offset'' \<in> set (attributes i)
                             then shift_optional (end_col_offset i) (sp_col_offset sp)
                             else end_col_offset i)\<rparr>)"
proof (cases "cls i = TypeIgnore")
  case True
  with assms have "is_int (lineno i)" by (simp add: node_ok_def)
  with True show ?thesis by (simp add: fix_node_def shift_default_int Let_def)
next
  case False
  have l: "lit ''lineno'' \<in> set (attributes i) \<Longrightarrow> is_int (lineno i)"
    and c: "lit ''col_offset'' \<in> set (attributes i) \<Longrightarrow> is_int (col_offset i)"
    using assms False by (simp_all add: node_ok_def)
  show ?thesis
  proof (cases "lit ''lineno'' \<in> set (attributes i)")
    case lt: True
    show ?thesis
    proof (cases "lit ''col_offset'' \<in> set (attributes i)")
      case True
      with lt False l c show ?thesis by (simp add: fix_node_def shift_default_int Let_def)
    next
      case ct: False
      with lt False l show ?thesis by (simp add: fix_node_def shift_default_int Let_def)
    qed
  next
    case lf: False
    show ?thesis
    proof (cases "lit ''col_offset'' \<in> set (attributes i)")
      case True
      with lf False c show ?thesis by (simp add: fix_node_def shift_default_int Let_def)
    next
      case ct: False
      with lf False show ?thesis by (simp add: fix_node_def Let_def)
    qed
  qed
qed

lemma fix_node_ok:
  assumes "node_ok i"
  shows "fix_node sp i = Inr (fixed_node sp i)"
  by (simp add: fixed_node_def fix_node_eq [OF assms])

lemma fix_source_position_map:
  "tree_ok t \<Longrightarrow> fix_source_position sp t = Inr (map_ast (fixed_node sp) t)"
proof (induction t)
  case (Node i cs)
  then have "\<And>c. c \<in> set cs \<Longrightarrow> fix_source_position sp c = Inr (map_ast (fixed_node sp) c)"
    by (simp add: list_all_iff)
  then have "collect (map (fix_source_position sp) cs) = Inr (map (map_ast (fixed_node sp)) cs)"
    by (rule collect_map_Inr)
  moreover have "fix_node sp i = Inr (fixed_node sp i)"
    using Node.prems by (simp add: fix_node_ok)
  ultimately show ?case by simp
qed

lemma node_at_map_ast: "node_at (map_ast f t) p = map_option f (node_at t p)"
proof (induction p arbitrary: t)
  case Nil
  then show ?case by (cases t) simp
next
  case (Cons k p)
  then show ?case by (cases t) simp
qed

lemma node_at_ok: "tree_ok t \<Longrightarrow> node_at t p = Some i \<Longrightarrow> node_ok i"
proof (induction p arbitrary: t)
  case Nil
  then show ?case by (cases t) simp
next
  case (Cons k p)
  then show ?case
    by (cases t) (auto simp: list_all_length split: if_splits)
qed

lemma fixed_node_props:
  assumes "node_ok i"
  shows "cls (fixed_node sp i) = cls i" and "attributes (fixed_node sp i) = attributes i"
    and "cls i = TypeIgnore \<Longrightarrow>
           moved (lineno i) (sp_lineno sp) (lineno (fixed_node sp i)) \<and>
           col_offset (fixed_node sp i) = col_offset i \<and>
           end_lineno (fixed_node sp i) = end_lineno i \<and>
           end_col_offset (fixed_node sp i) = end_col_offset i"
    and "cls i \<noteq> TypeIgnore \<Longrightarrow>
           (if lit ''lineno'' \<in> set (attributes i)
            then moved (lineno i) (sp_lineno sp) (lineno (fixed_node sp i))
            else lineno (fixed_node sp i) = lineno i) \<and>
           (if lit ''col_offset'' \<in> set (attributes i)
            then moved (col_offset i) (sp_col_offset sp) (col_offset (fixed_node sp i))
            else col_offset (fixed_node sp i) = col_offset i) \<and>
           (if lit ''end_lineno'' \<in> set (attributes i)
            then moved (end_lineno i) (sp_lineno sp) (end_lineno (fixed_node sp i))
            else end_lineno (fixed_node sp i) = end_lineno i) \<and>
           (if lit ''end_col_offset'' \<in> set (attributes i)
            then moved (end_col_offset i) (sp_col_offset sp) (end_col_offset (fixed_node sp i))
            else end_col_offset (fixed_node sp i) = end_col_offset i)"
  by (simp_all add: fixed_node_def fix_node_eq [OF assms] moved_shift_optional)

text \<open>
  Claim C8.  On a tree as the parser builds it the remapper never raises; the result has
  the shape of the input, and every node keeps its class.  On a type-ignore comment only
  \<open>lineno\<close> is shifted, by the line offset.  On every other node each of \<open>lineno\<close> and
  \<open>end_lineno\<close> that the class lists is shifted by the line offset and each of
  \<open>col_offset\<close> and \<open>end_col_offset\<close> by the column offset, where it holds an integer; an
  attribute that is \<open>None\<close> or absent, or that the class does not list, is left as it is.
\<close>
theorem position_remapper:
  assumes "tree_ok t"
  shows "\<exists>t'. fix_source_position sp t = Inr t' \<and>
     (\<forall>p. (node_at t p = None \<longrightarrow> node_at t' p = None) \<and>
          (\<forall>i. node_at t p = Some i \<longrightarrow>
             (\<exists>i'. node_at t' p = Some i' \<and> cls i' = cls i \<and> attributes i' = attributes i \<and>
                (if cls i = TypeIgnore
                 then moved (lineno i) (sp_lineno sp) (lineno i') \<and>
                      col_offset i' = col_offset i \<and> end_lineno i' = end_lineno i \<and>
                      end_col_offset i' = end_col_offset i
                 else (if lit ''lineno'' \<in> set (attributes i)
                       then moved (lineno i) (sp_lineno sp) (lineno i')
                       else lineno i' = lineno i) \<and>
                      (if lit ''col_offset'' \<in> set (attributes i)
                       then moved (col_offset i) (sp_col_offset sp) (col_offset i')
                       else col_offset i' = col_offset i) \<and>
                      (if lit ''end_lineno'' \<in> set (attributes i)
                       then moved (end_lineno i) (sp_lineno sp) (end_lineno i')
                       else end_lineno i' = end_lineno i) \<and>
                      (if lit ''end_col_offset'' \<in> set (attributes i)
                       then moved (end_col_offset i) (sp_col_offset sp) (end_col_offset i')
                       else end_col_offset i' = end_col_offset i)))))"
proof (intro exI conjI allI impI)
  show "fix_source_position sp t = Inr (map_ast (fixed_node sp) t)"
    using assms by (rule fix_source_position_map)
next
  fix p assume "node_at t p = None"
  then show "node_at (map_ast (fixed_node sp) t) p = None"
    by (simp add: node_at_map_ast)
next
  fix p i assume n: "node_at t p = Some i"
  with assms have ok: "node_ok i" by (rule node_at_ok)
  show "node_at (map_ast (fixed_node sp) t) p = Some (fixed_node sp i)"
    using n by (simp add: node_at_map_ast)
  show "cls (fixed_node sp i) = cls i" "attributes (fixed_node sp i) = attributes i"
    using ok by (rule fixed_node_props)+
  show "if cls i = TypeIgnore
        then moved (lineno i) (sp_lineno sp) (lineno (fixed_node sp i)) \<and>
             col_offset (fixed_node sp i) = col_offset i \<and>
             end_lineno (fixed_node sp i) = end_lineno i \<and>
             end_col_offset (fixed_node sp i) = end_col_offset i
        else (if lit ''lineno'' \<in> set (attributes i)
              then moved (lineno i) (sp_lineno sp) (lineno (fixed_node sp i))
              else lineno (fixed_node sp i) = lineno i) \<and>
             (if lit ''col_offset'' \<in> set (attributes i)
              then moved (col_offset i) (sp_col_offset sp) (col_offset (fixed_node sp i))
              else col_offset (fixed_node sp i) = col_offset i) \<and>
             (if lit ''end_lineno'' \<in> set (attributes i)
              then moved (end_lineno i) (sp_lineno sp) (end_lineno (fixed_node sp i))
              else end_lineno (fixed_node sp i) = end_lineno i) \<and>
             (if lit ''end_col_offset'' \<in> set (attributes i)
              then moved (end_col_offset i) (sp_col_offset sp) (end_col_offset (fixed_node sp i))
              else end_col_offset (fixed_node sp i) = end_col_offset i)"
  proof (cases "cls i = TypeIgnore")
    case True
    with fixed_node_props(3) [OF ok True, of sp] show ?thesis by simp
  next
    case False
    with fixed_node_props(4) [OF ok False, of sp] show ?thesis by simp
  qed
qed

theorem position_remapper_witness:
  "tree_ok remap_tree \<and>
   (\<exists>t' e ti. fix_source_position remap_anchor remap_tree = Inr t' \<and>
      node_at t' [0] = Some e \<and> lineno e = PyInt 11 \<and> col_offset e = PyInt 4 \<and>
      end_lineno e = PyNone \<and> end_col_offset e = Absent \<and>
      node_at t' [1] = Some ti \<and> lineno ti = PyInt 13 \<and> col_offset ti = Absent)"
proof -
  have ok: "tree_ok remap_tree"
    by (simp add: remap_tree_def new_node_def node_ok_def is_int_def located_def at_pos_def
        plain_def)
  let ?e = "(new_node Expr located)\<lparr>lineno := PyInt 1, col_offset := PyInt 0,
                end_lineno := PyNone\<rparr>"
  let ?ti = "(new_node TypeIgnore [])\<lparr>lineno := PyInt 3\<rparr>"
  have at: "node_at remap_tree [0] = Some ?e" "node_at remap_tree [1] = Some ?ti"
    by (simp_all add: remap_tree_def)
  from position_remapper [OF ok, of remap_anchor] obtain t' where
    t': "fix_source_position remap_anchor remap_tree = Inr t'"
    and all: "\<And>p i. node_at remap_tree p = Some i \<Longrightarrow>
      (\<exists>i'. node_at t' p = Some i' \<and> cls i' = cls i \<and> attributes i' = attributes i \<and>
                (if cls i = TypeIgnore
                 then moved (lineno i) (sp_lineno remap_anchor) (lineno i') \<and>
                      col_offset i' = col_offset i \<and> end_lineno i' = end_lineno i \<and>
                      end_col_offset i' = end_col_offset i
                 else (if lit ''lineno'' \<in> set (attributes i)
                       then moved (lineno i) (sp_lineno remap_anchor) (lineno i')
                       else lineno i' = lineno i) \<and>
                      (if lit ''col_offset'' \<in> set (attributes i)
                       then moved (col_offset i) (sp_col_offset remap_anchor) (col_offset i')
                       else col_offset i' = col_offset i) \<and>
                      (if lit ''end_lineno'' \<in> set (attributes i)
                       then moved (end_lineno i) (sp_lineno remap_anchor) (end_lineno i')
                       else end_lineno i' = end_lineno i) \<and>
                      (if lit ''end_col_offset'' \<in> set (attributes i)
                       then moved (end_col_offset i) (sp_col_offset remap_anchor) (end_col_offset i')
                       else end_col_offset i' = end_col_offset i)))"
    by blast
  from all [OF at(1)] obtain e where e: "node_at t' [0] = Some e" "lineno e = PyInt 11"
    "col_offset e = PyInt 4" "end_lineno e = PyNone" "end_col_offset e = Absent"
    by (auto simp: new_node_def located_def moved_def remap_anchor_def lit_simps)
  from all [OF at(2)] obtain ti where ti: "node_at t' [1] = Some ti" "lineno ti = PyInt 13"
    "col_offset ti = Absent"
    by (auto simp: new_node_def moved_def remap_anchor_def)
  from ok t' e ti show ?thesis by blast
qed

section \<open>Properties of the file manager\<close>

text \<open>
  Claim C10.  When the manager has a file name whose absolute path is the absolute path
  of the canonicalized requested name, \<open>rename\<close> returns at once: the manager (its file
  name and its app) and the files are as before, and no exception is raised.
\<close>
theorem rename_same_path:
  assumes "filename self = Some current"
    and "abspath sys current = abspath sys (canonicalize_filename sys requested)"
  shows "rename sys self fs requested = (Inr (), self, fs)"
  using assms by (subst rename.simps) (simp add: is_same_path_def)

theorem rename_same_path_witness:
  "filename nb_manager = Some (lit ''nb.py'') \<and>
   abspath map_os (lit ''nb.py'') =
     abspath map_os (canonicalize_filename map_os (lit ''/home/user/nb'')) \<and>
   rename map_os nb_manager nb_files (lit ''/home/user/nb'') = (Inr (), nb_manager, nb_files)"
proof -
  have f: "filename nb_manager = Some (lit ''nb.py'')" by (simp add: nb_manager_def)
  have a: "abspath map_os (lit ''nb.py'') =
     abspath map_os (canonicalize_filename map_os (lit ''/home/user/nb''))"
    by (simp add: map_os_def startswith_def endswith_def lit_simps)
  from rename_same_path [OF f a] f a show ?thesis by simp
qed

text \<open>A request for another path does rename the file.\<close>

lemma rename_other_path:
  "rename map_os nb_manager nb_files (lit ''other.py'') =
     (Inr (), nb_manager\<lparr>filename := Some (lit ''other.py'')\<rparr>,
      [lit ''other.py'' \<mapsto> lit ''import marimo''])"
  by (subst rename.simps)
     (auto simp: is_same_path_def map_os_def nb_manager_def nb_files_def startswith_def
        endswith_def lit_simps assert_path_does_not_exist_def rename_file_def last3_def Let_def
        fun_eq_iff)

end
